theory Spec2Isabelle
  imports Complex_Main "HOL-Library.Char_ord" "HOL-Library.List_Lexorder" "HOL-Library.Sublist"
begin

section \<open>Python values used by diff.py\<close>

text \<open>
  A Python \<^verbatim>\<open>float\<close>: a finite value (every finite double is a rational), the two
  infinities, or NaN. Only comparisons are applied to floats in diff.py, so rounding plays
  no role; NaN is kept because \<^verbatim>\<open>float()\<close> can return it and every comparison with
  it is false.
\<close>

datatype pyfloat = Finite rat | PosInf | NegInf | NaN

text \<open>\<^verbatim>\<open>x < y\<close> on floats.\<close>

fun py_lt :: "pyfloat \<Rightarrow> pyfloat \<Rightarrow> bool" where
  "py_lt NaN y = False"
| "py_lt x NaN = False"
| "py_lt (Finite x) (Finite y) = (x < y)"
| "py_lt (Finite x) PosInf = True"
| "py_lt (Finite x) NegInf = False"
| "py_lt PosInf y = False"
| "py_lt NegInf (Finite y) = True"
| "py_lt NegInf PosInf = True"
| "py_lt NegInf NegInf = False"

text \<open>\<^verbatim>\<open>x <= y\<close> on floats.\<close>

fun py_le :: "pyfloat \<Rightarrow> pyfloat \<Rightarrow> bool" where
  "py_le NaN y = False"
| "py_le x NaN = False"
| "py_le (Finite x) (Finite y) = (x \<le> y)"
| "py_le (Finite x) PosInf = True"
| "py_le (Finite x) NegInf = False"
| "py_le PosInf PosInf = True"
| "py_le PosInf y = False"
| "py_le NegInf y = True"

text \<open>\<^verbatim>\<open>INFINITY = float('inf')\<close>\<close>

definition INFINITY :: pyfloat where
  "INFINITY = PosInf"

text \<open>
  The builtin \<^verbatim>\<open>min(xs, default=d)\<close>: the first element is the candidate, and a later
  element replaces it when it compares \<^verbatim>\<open><\<close> the candidate.
\<close>

fun min_loop :: "pyfloat \<Rightarrow> pyfloat list \<Rightarrow> pyfloat" where
  "min_loop best [] = best"
| "min_loop best (x # xs) = min_loop (if py_lt x best then x else best) xs"

definition py_min :: "pyfloat list \<Rightarrow> pyfloat \<Rightarrow> pyfloat" where
  "py_min xs d = (case xs of [] \<Rightarrow> d | x # rest \<Rightarrow> min_loop x rest)"

text \<open>
  Text is a list of characters, one \<^typ>\<open>char\<close> per code point below 256.
  \<^verbatim>\<open>str.isspace\<close> on these code points: tab to carriage return, the four
  separators 28 to 31, space, NEL (133) and the no-break space (160).
\<close>

definition isspace :: "char \<Rightarrow> bool" where
  "isspace c = (of_char c \<in> {9, 10, 11, 12, 13, 28, 29, 30, 31, 32, 133, 160 :: nat})"

text \<open>\<^verbatim>\<open>s.strip()\<close>\<close>

definition strip :: "string \<Rightarrow> string" where
  "strip s = rev (dropWhile isspace (rev (dropWhile isspace s)))"

text \<open>\<^verbatim>\<open>s[i:-k]\<close> for \<open>k > 0\<close>: the stop index is clamped at 0 and the slice is empty
  when the start is not before the stop.\<close>

definition slice_to_end :: "nat \<Rightarrow> nat \<Rightarrow> string \<Rightarrow> string" where
  "slice_to_end i k s = drop i (take (length s - k) s)"

section \<open>Errors, the workspace and the external tools\<close>

text \<open>
  The exceptions diff.py raises or lets through. Three of them are \<^verbatim>\<open>ValueError\<close>s
  that differ in their message.
\<close>

datatype error =
    Destdir_not_clean          \<comment> \<open>\<^verbatim>\<open>ValueError("destdir not clean: ...")\<close>\<close>
  | CalledProcessError int     \<comment> \<open>\<^verbatim>\<open>check=True\<close> and a non-zero exit status\<close>
  | AssertionError
  | Compare_crashed int        \<comment> \<open>\<^verbatim>\<open>ValueError("compare crashed, status=...")\<close>\<close>
  | Widths_or_heights_differ   \<comment> \<open>\<^verbatim>\<open>ValueError("image widths or heights differ")\<close>\<close>
  | Float_ValueError string    \<comment> \<open>\<^verbatim>\<open>float(s)\<close> on text that is no number\<close>
  | Pool_ValueError            \<comment> \<open>\<^verbatim>\<open>ThreadPoolExecutor(max_workers=n)\<close> with \<open>n \<le> 0\<close>\<close>

text \<open>
  What was invoked, in order: the two external programs, and every entry into
  \<^verbatim>\<open>imgdiff\<close>.
\<close>

datatype call =
    Pdftocairo int string string       \<comment> \<open>dpi, source path, output prefix\<close>
  | Imgdiff string string string string  \<comment> \<open>a, b, diff, log\<close>
  | Compare string string string        \<comment> \<open>a, b, diff\<close>

text \<open>
  The workspace: the names of the files in the one directory every path of a run lies in,
  in listing order, and the calls made so far.
\<close>

record world =
  files :: "string list"
  calls :: "call list"

text \<open>
  What diff.py does not implement is a parameter:
  \<^item> \<open>isfile\<close>: \<^verbatim>\<open>os.path.isfile\<close> on the two source documents;
  \<^item> \<open>run_pdftocairo dpi source prefix fs\<close>: the rasterizer's exit status and the
    directory listing it leaves behind;
  \<^item> \<open>run_compare a b diff fs\<close>: the comparison tool's exit status, its report as
    \<^verbatim>\<open>readlines()\<close> reads it back from the log, and the directory listing it leaves;
  \<^item> \<open>float_of\<close>: the builtin \<^verbatim>\<open>float\<close> on text, \<open>None\<close> where it raises.
\<close>

record env =
  isfile :: "string \<Rightarrow> bool"
  run_pdftocairo :: "int \<Rightarrow> string \<Rightarrow> string \<Rightarrow> string list \<Rightarrow> int \<times> string list"
  run_compare :: "string \<Rightarrow> string \<Rightarrow> string \<Rightarrow> string list \<Rightarrow> int \<times> string list \<times> string list"
  float_of :: "string \<Rightarrow> pyfloat option"

section \<open>pdftopng\<close>

text \<open>
  \<^verbatim>\<open>destdir.glob(basename + '*')\<close> and \<^verbatim>\<open>destdir.glob(basename + '*' + '.png')\<close>
  for a basename that is literal text in a glob pattern (\<open>glob_literal\<close>; pdfdiff passes
  \<^verbatim>\<open>"a"\<close> and \<^verbatim>\<open>"b"\<close>): the names that start with the basename, and those that
  also end in \<^verbatim>\<open>.png\<close> after it.
\<close>

definition glob_literal :: "string \<Rightarrow> bool" where
  "glob_literal basename = (list_all (\<lambda>c. c \<notin> set ''*?[/'') basename)"

definition glob_star :: "string \<Rightarrow> string list \<Rightarrow> string list" where
  "glob_star basename fs = filter (prefix basename) fs"

definition glob_star_png :: "string \<Rightarrow> string list \<Rightarrow> string list" where
  "glob_star_png basename fs =
     filter (\<lambda>n. prefix basename n \<and> suffix ''.png'' (drop (length basename) n)) fs"

definition pdftopng :: "env \<Rightarrow> string \<Rightarrow> string \<Rightarrow> int \<Rightarrow> world \<Rightarrow> (error + string list) \<times> world" where
  "pdftopng e sourcepath basename dpi w =
     (if [] \<noteq> glob_star basename (files w) then (Inl Destdir_not_clean, w)
      else
        (case run_pdftocairo e dpi sourcepath basename (files w) of
           (returncode, fs) \<Rightarrow>
             (let w' = \<lparr>files = fs, calls = calls w @ [Pdftocairo dpi sourcepath basename]\<rparr>
              in if returncode \<noteq> 0 then (Inl (CalledProcessError returncode), w')
                 else
                   (let numbers = sort (glob_star_png basename fs)
                    in (Inr (map (slice_to_end (length basename + 1) 4) numbers), w')))))"

section \<open>imgdiff\<close>

definition PREF :: string where
  "PREF = ''    all: ''"

definition imgdiff :: "env \<Rightarrow> string \<Rightarrow> string \<Rightarrow> string \<Rightarrow> string \<Rightarrow> world \<Rightarrow> (error + pyfloat) \<times> world" where
  "imgdiff e a b diff logf w0 =
     (let w = w0\<lparr>calls := calls w0 @ [Imgdiff a b diff logf]\<rparr> in
      if a \<notin> set (files w) then (Inl AssertionError, w)
      else if b \<notin> set (files w) then (Inl AssertionError, w)
      else if diff \<in> set (files w) then (Inl AssertionError, w)
      else if logf \<in> set (files w) then (Inl AssertionError, w)
      else
        (case run_compare e a b diff (files w @ [logf]) of
           (returncode, lines, fs) \<Rightarrow>
             (let w' = \<lparr>files = fs, calls = calls w @ [Compare a b diff]\<rparr> in
              if returncode > 1 then (Inl (Compare_crashed returncode), w')
              else if list_ex (sublist ''image widths or heights differ'') lines
                then (Inl Widths_or_heights_differ, w')
              else
                (let all_line = filter (prefix PREF) lines in
                 if length all_line \<noteq> 1 then (Inl AssertionError, w')
                 else
                   (let all_str = strip (drop (length PREF) (hd all_line)) in
                    if all_str = ''0'' then (Inr INFINITY, w')
                    else
                      (case float_of e all_str of
                         None \<Rightarrow> (Inl (Float_ValueError all_str), w')
                       | Some all_num \<Rightarrow> (Inr all_num, w')))))))"

section \<open>pdfdiff\<close>

text \<open>The four paths of one page, relative to the temporary directory.\<close>

definition pageapath :: "string \<Rightarrow> string" where
  "pageapath pageno = ''a-'' @ pageno @ ''.png''"

definition pagebpath :: "string \<Rightarrow> string" where
  "pagebpath pageno = ''b-'' @ pageno @ ''.png''"

definition diffpath :: "string \<Rightarrow> string" where
  "diffpath pageno = ''diff-'' @ pageno @ ''.png''"

definition logpath :: "string \<Rightarrow> string" where
  "logpath pageno = ''log-'' @ pageno @ ''.txt''"

text \<open>
  The loop \<^verbatim>\<open>for pageno in a_i\<close>, with the list \<^verbatim>\<open>significances\<close> built so far: an
  exception of \<^verbatim>\<open>imgdiff\<close> leaves the loop and the function.
\<close>

fun for_pageno :: "env \<Rightarrow> string list \<Rightarrow> pyfloat list \<Rightarrow> world \<Rightarrow> (error + pyfloat list) \<times> world" where
  "for_pageno e [] significances w = (Inr significances, w)"
| "for_pageno e (pageno # rest) significances w =
     (case imgdiff e (pageapath pageno) (pagebpath pageno) (diffpath pageno) (logpath pageno) w of
        (Inl err, w') \<Rightarrow> (Inl err, w')
      | (Inr s, w') \<Rightarrow> for_pageno e rest (significances @ [s]) w')"

text \<open>
  The temporary directory is new, so the run starts from no file and no call.
\<close>

definition tmpdir :: world where
  "tmpdir = \<lparr>files = [], calls = []\<rparr>"

text \<open>
  The pool block: both conversions are submitted, so the one of \<open>b\<close> runs whatever
  becomes of the one of \<open>a\<close>; the results are then read in the order \<open>a\<close>, \<open>b\<close>. The
  conversions are taken in submission order, which is the schedule of a pool of one worker.
\<close>

definition expand_pdfs :: "env \<Rightarrow> string \<Rightarrow> string \<Rightarrow> int \<Rightarrow> world \<Rightarrow> (error + string list \<times> string list) \<times> world" where
  "expand_pdfs e a b dpi w =
     (case pdftopng e a ''a'' dpi w of
        (a_i_, w1) \<Rightarrow>
          (case pdftopng e b ''b'' dpi w1 of
             (b_i_, w2) \<Rightarrow>
               (case a_i_ of
                  Inl err \<Rightarrow> (Inl err, w2)
                | Inr a_i \<Rightarrow>
                    (case b_i_ of
                       Inl err \<Rightarrow> (Inl err, w2)
                     | Inr b_i \<Rightarrow> (Inr (a_i, b_i), w2)))))"

text \<open>
  \<^verbatim>\<open>pdfdiff(a, b, threshold, dpi=dpi, num_threads=num_threads)\<close>. The verbosity only
  selects what is printed and \<^verbatim>\<open>time_to_inspect\<close> only sleeps, so neither is a
  parameter here. The world returned is the temporary directory as it is when the
  \<^verbatim>\<open>with\<close> block is left.
\<close>

definition pdfdiff :: "env \<Rightarrow> string \<Rightarrow> string \<Rightarrow> pyfloat \<Rightarrow> int \<Rightarrow> int \<Rightarrow> (error + bool) \<times> world" where
  "pdfdiff e a b threshold dpi num_threads =
     (if \<not> isfile e a then (Inl AssertionError, tmpdir)
      else if \<not> isfile e b then (Inl AssertionError, tmpdir)
      else if num_threads \<le> 0 then (Inl Pool_ValueError, tmpdir)
      else
        (case expand_pdfs e a b dpi tmpdir of
           (Inl err, w) \<Rightarrow> (Inl err, w)
         | (Inr (a_i, b_i), w) \<Rightarrow>
             if a_i \<noteq> b_i then
               (if \<not> (length a_i \<noteq> length b_i) then (Inl AssertionError, w)
                else (Inr False, w))
             else if \<not> (length a_i > 0) then (Inl AssertionError, w)
             else
               (case for_pageno e a_i [] w of
                  (Inl err, w') \<Rightarrow> (Inl err, w')
                | (Inr significances, w') \<Rightarrow>
                    (let min_significance = py_min significances INFINITY;
                         significant = py_le min_significance threshold
                     in (Inr (\<not> significant), w')))))"

section \<open>An environment for worked examples\<close>

text \<open>
  \<^verbatim>\<open>float\<close> on the four tokens the examples use; 3.5 and 40 are doubles exactly.
\<close>

definition example_float :: "string \<Rightarrow> pyfloat option" where
  "example_float s =
     (if s = ''3.5'' then Some (Finite (7 / 2))
      else if s = ''40'' then Some (Finite 40)
      else if s = ''inf'' then Some PosInf
      else if s = ''nan'' then Some NaN
      else None)"

text \<open>
  Both documents exist; the rasterizer succeeds and adds the given names for prefix
  \<^verbatim>\<open>a\<close> and for any other prefix; the comparison tool answers from a table keyed by
  its first image (exit status and report) and writes the diff image.
\<close>

definition example_env :: "string list \<Rightarrow> string list \<Rightarrow> (string \<times> int \<times> string list) list \<Rightarrow> env" where
  "example_env names_a names_b runs =
     \<lparr>isfile = (\<lambda>p. True),
      run_pdftocairo = (\<lambda>dpi source pre fs. (0, fs @ (if pre = ''a'' then names_a else names_b))),
      run_compare = (\<lambda>a b diff fs.
         case map_of runs a of
           Some (status, report) \<Rightarrow> (status, report, fs @ [diff])
         | None \<Rightarrow> (2, [], fs)),
      float_of = example_float\<rparr>"

text \<open>A directory holding page 1 of both documents, before any call.\<close>

definition page1_world :: world where
  "page1_world = \<lparr>files = [''a-1.png'', ''b-1.png''], calls = []\<rparr>"

text \<open>
  Two pages per document; the comparison tool scores page 1 with 40 and page 2 with 3.5.
\<close>

definition two_page_env :: env where
  "two_page_env = example_env [''a-1.png'', ''a-2.png''] [''b-1.png'', ''b-2.png'']
     [(''a-1.png'', 1, [''    all: 40\<newline>'']), (''a-2.png'', 1, [''    all: 3.5\<newline>''])]"

text \<open>
  Two pages per document; the comparison of page 2 reports differing dimensions with
  exit status 1.
\<close>

definition mismatch_env :: env where
  "mismatch_env = example_env [''a-1.png'', ''a-2.png''] [''b-1.png'', ''b-2.png'']
     [(''a-1.png'', 1, [''    all: 40\<newline>'']),
      (''a-2.png'', 1, [''compare: image widths or heights differ\<newline>''])]"

section \<open>Facts about the comparisons and the loops\<close>

lemma py_lt_conv_le: "x \<noteq> NaN \<Longrightarrow> y \<noteq> NaN \<Longrightarrow> py_lt x y = (\<not> py_le y x)"
  by (cases x; cases y) auto

lemma py_le_refl: "x \<noteq> NaN \<Longrightarrow> py_le x x"
  by (cases x) auto

lemma py_le_trans: "py_le x y \<Longrightarrow> py_le y z \<Longrightarrow> py_le x z"
  by (cases x; cases y; cases z) auto

lemma py_le_antisym: "py_le x y \<Longrightarrow> py_le y x \<Longrightarrow> x = y"
  by (cases x; cases y) auto

lemma py_lt_imp_le: "py_lt x y \<Longrightarrow> py_le x y"
  by (cases x; cases y) auto

lemma min_loop_mem: "min_loop best xs \<in> set (best # xs)"
  by (induction xs arbitrary: best) auto

lemma min_loop_le_best: "NaN \<notin> set (best # xs) \<Longrightarrow> py_le (min_loop best xs) best"
proof (induction xs arbitrary: best)
  case Nil
  then show ?case by (simp add: py_le_refl)
next
  case (Cons x xs)
  show ?case
  proof (cases "py_lt x best")
    case True
    from Cons.prems have "NaN \<notin> set (x # xs)" by auto
    then have "py_le (min_loop x xs) x" by (rule Cons.IH)
    with True show ?thesis by (auto intro: py_le_trans py_lt_imp_le)
  next
    case False
    from Cons.prems have "NaN \<notin> set (best # xs)" by auto
    then have "py_le (min_loop best xs) best" by (rule Cons.IH)
    with False show ?thesis by simp
  qed
qed

lemma min_loop_lower: "NaN \<notin> set (best # xs) \<Longrightarrow> s \<in> set (best # xs) \<Longrightarrow> py_le (min_loop best xs) s"
proof (induction xs arbitrary: best)
  case Nil
  then show ?case by (simp add: py_le_refl)
next
  case (Cons x xs)
  let ?c = "if py_lt x best then x else best"
  from Cons.prems(1) have nn: "NaN \<notin> set (?c # xs)" by auto
  have c_le_best: "py_le ?c best"
    using Cons.prems(1) by (auto intro: py_lt_imp_le py_le_refl)
  have c_le_x: "py_le ?c x"
    using Cons.prems(1) by (cases x; cases best) (auto)
  have m_le_c: "py_le (min_loop ?c xs) ?c" using nn by (rule min_loop_le_best)
  from Cons.prems(2) consider "s = best" | "s = x" | "s \<in> set xs" by auto
  then show ?case
  proof cases
    case 1
    with m_le_c c_le_best show ?thesis by (auto intro: py_le_trans)
  next
    case 2
    with m_le_c c_le_x show ?thesis by (auto intro: py_le_trans)
  next
    case 3
    then have "s \<in> set (?c # xs)" by simp
    from Cons.IH [OF nn this] show ?thesis by simp
  qed
qed

lemma py_min_is_minimum:
  assumes "xs \<noteq> []" "NaN \<notin> set xs"
  shows "py_min xs d \<in> set xs \<and> (\<forall>s\<in>set xs. py_le (py_min xs d) s)"
proof (cases xs)
  case Nil
  with assms show ?thesis by simp
next
  case (Cons x rest)
  with assms(2) have "NaN \<notin> set (x # rest)" by simp
  with Cons show ?thesis
    using min_loop_mem [of x rest] min_loop_lower [of x rest]
    by (auto simp: py_min_def)
qed

lemma for_pageno_length:
  "for_pageno e ps sigs w = (Inr s, w') \<Longrightarrow> length s = length sigs + length ps"
proof (induction ps arbitrary: sigs w)
  case Nil
  then show ?case by simp
next
  case (Cons p ps)
  then show ?case
    by (auto split: prod.splits sum.splits)
qed

lemma for_pageno_append:
  "for_pageno e (xs @ ys) sigs w =
     (case for_pageno e xs sigs w of
        (Inl err, w') \<Rightarrow> (Inl err, w')
      | (Inr s, w') \<Rightarrow> for_pageno e ys s w')"
  by (induction xs arbitrary: sigs w) (auto split: prod.splits sum.splits)

lemma for_pageno_raises:
  "fst (imgdiff e (pageapath p) (pagebpath p) (diffpath p) (logpath p) w) = Inl err \<Longrightarrow>
   fst (for_pageno e (p # rest) sigs w) = Inl err"
  by (auto split: prod.splits sum.splits)

lemma pdfdiff_after_expand:
  assumes "isfile e a" "isfile e b" "0 < num_threads"
    and "expand_pdfs e a b dpi tmpdir = (Inr (a_i, b_i), w)"
  shows "pdfdiff e a b threshold dpi num_threads =
     (if a_i \<noteq> b_i then
        (if length a_i = length b_i then (Inl AssertionError, w) else (Inr False, w))
      else if a_i = [] then (Inl AssertionError, w)
      else
        (case for_pageno e a_i [] w of
           (Inl err, w') \<Rightarrow> (Inl err, w')
         | (Inr significances, w') \<Rightarrow>
             (Inr (\<not> py_le (py_min significances INFINITY) threshold), w')))"
  using assms by (simp add: pdfdiff_def Let_def split: prod.splits sum.splits)

lemma pdftopng_calls:
  "set (calls (snd (pdftopng e s p d w))) \<subseteq> set (calls w) \<union> {Pdftocairo d s p}"
  by (auto simp: pdftopng_def Let_def split: prod.splits if_splits)

lemma expand_pdfs_calls:
  "set (calls (snd (expand_pdfs e a b d w))) \<subseteq> set (calls w) \<union> {Pdftocairo d a ''a'', Pdftocairo d b ''b''}"
proof -
  obtain ra w1 where A: "pdftopng e a ''a'' d w = (ra, w1)" by (cases "pdftopng e a ''a'' d w")
  obtain rb w2 where B: "pdftopng e b ''b'' d w1 = (rb, w2)" by (cases "pdftopng e b ''b'' d w1")
  have 1: "set (calls w1) \<subseteq> set (calls w) \<union> {Pdftocairo d a ''a''}"
    using pdftopng_calls [of e a "''a''" d w] A by simp
  have 2: "set (calls w2) \<subseteq> set (calls w1) \<union> {Pdftocairo d b ''b''}"
    using pdftopng_calls [of e b "''b''" d w1] B by simp
  have "snd (expand_pdfs e a b d w) = w2"
    by (simp add: expand_pdfs_def A B split: sum.splits)
  with 1 2 show ?thesis by auto
qed

lemma expand_pdfs_tmpdir_calls:
  assumes "expand_pdfs e a b dpi tmpdir = (r, w)"
  shows "set (calls w) \<subseteq> {Pdftocairo dpi a ''a'', Pdftocairo dpi b ''b''}"
  using expand_pdfs_calls [of e a b dpi tmpdir] assms by (simp add: tmpdir_def)

lemma glob_star_png_iff:
  "(prefix basename n \<and> suffix ''.png'' (drop (length basename) n))
     = (\<exists>mid. n = basename @ mid @ ''.png'')"
  by (auto simp: prefix_def suffix_def)

lemma page_id_of_name:
  "slice_to_end (Suc (length basename)) 4 (basename @ mid @ ''.png'') = drop (Suc 0) mid"
  by (simp add: slice_to_end_def)

text \<open>
  What \<^verbatim>\<open>imgdiff\<close> raises or returns once its four assertions have passed and the
  comparison tool has run.
\<close>

lemma imgdiff_after_run:
  assumes "a \<in> set (files w)" "b \<in> set (files w)" "diff \<notin> set (files w)" "logf \<notin> set (files w)"
    and "run_compare e a b diff (files w @ [logf]) = (returncode, lines, fs)"
  shows "fst (imgdiff e a b diff logf w) =
     (if returncode > 1 then Inl (Compare_crashed returncode)
      else if list_ex (sublist ''image widths or heights differ'') lines then Inl Widths_or_heights_differ
      else if length (filter (prefix PREF) lines) \<noteq> 1 then Inl AssertionError
      else if strip (drop (length PREF) (hd (filter (prefix PREF) lines))) = ''0'' then Inr INFINITY
      else (case float_of e (strip (drop (length PREF) (hd (filter (prefix PREF) lines)))) of
              None \<Rightarrow> Inl (Float_ValueError (strip (drop (length PREF) (hd (filter (prefix PREF) lines)))))
            | Some all_num \<Rightarrow> Inr all_num))"
  using assms by (simp add: imgdiff_def Let_def split: option.splits)

section \<open>Worked runs\<close>

lemma two_page_expand:
  "expand_pdfs two_page_env ''x.pdf'' ''y.pdf'' 150 tmpdir =
     (Inr ([''1'', ''2''], [''1'', ''2'']),
      \<lparr>files = [''a-1.png'', ''a-2.png'', ''b-1.png'', ''b-2.png''],
       calls = [Pdftocairo 150 ''x.pdf'' ''a'', Pdftocairo 150 ''y.pdf'' ''b'']\<rparr>)"
  by (simp add: two_page_env_def example_env_def expand_pdfs_def pdftopng_def tmpdir_def
      glob_star_def glob_star_png_def slice_to_end_def suffix_def)

lemma two_page_loop:
  "fst (for_pageno two_page_env [''1'', ''2''] []
     \<lparr>files = [''a-1.png'', ''a-2.png'', ''b-1.png'', ''b-2.png''],
       calls = [Pdftocairo 150 ''x.pdf'' ''a'', Pdftocairo 150 ''y.pdf'' ''b'']\<rparr>)
   = Inr [Finite 40, Finite (7 / 2)]"
  by (simp add: two_page_env_def example_env_def imgdiff_def pageapath_def pagebpath_def
      diffpath_def logpath_def PREF_def strip_def isspace_def example_float_def Let_def
      sublist_code)

lemma two_three_expand:
  "expand_pdfs (example_env [''a-1.png'', ''a-2.png''] [''b-1.png'', ''b-2.png'', ''b-3.png''] [])
      ''x.pdf'' ''y.pdf'' 150 tmpdir =
     (Inr ([''1'', ''2''], [''1'', ''2'', ''3'']),
      \<lparr>files = [''a-1.png'', ''a-2.png'', ''b-1.png'', ''b-2.png'', ''b-3.png''],
       calls = [Pdftocairo 150 ''x.pdf'' ''a'', Pdftocairo 150 ''y.pdf'' ''b'']\<rparr>)"
  by (simp add: example_env_def expand_pdfs_def pdftopng_def tmpdir_def
      glob_star_def glob_star_png_def slice_to_end_def suffix_def)

lemma mislabelled_expand:
  "expand_pdfs (example_env [''a-1.png'', ''a-2.png''] [''b-1.png'', ''b-3.png''] [])
      ''x.pdf'' ''y.pdf'' 150 tmpdir =
     (Inr ([''1'', ''2''], [''1'', ''3'']),
      \<lparr>files = [''a-1.png'', ''a-2.png'', ''b-1.png'', ''b-3.png''],
       calls = [Pdftocairo 150 ''x.pdf'' ''a'', Pdftocairo 150 ''y.pdf'' ''b'']\<rparr>)"
  by (simp add: example_env_def expand_pdfs_def pdftopng_def tmpdir_def
      glob_star_def glob_star_png_def slice_to_end_def suffix_def)

lemma no_pages_expand:
  "expand_pdfs (example_env [] [] []) ''x.pdf'' ''y.pdf'' 150 tmpdir =
     (Inr ([], []), \<lparr>files = [], calls = [Pdftocairo 150 ''x.pdf'' ''a'', Pdftocairo 150 ''y.pdf'' ''b'']\<rparr>)"
  by (simp add: example_env_def expand_pdfs_def pdftopng_def tmpdir_def
      glob_star_def glob_star_png_def slice_to_end_def suffix_def)

lemma mismatch_expand:
  "expand_pdfs mismatch_env ''x.pdf'' ''y.pdf'' 150 tmpdir =
     (Inr ([''1''] @ ''2'' # [], [''1''] @ ''2'' # []),
      \<lparr>files = [''a-1.png'', ''a-2.png'', ''b-1.png'', ''b-2.png''],
       calls = [Pdftocairo 150 ''x.pdf'' ''a'', Pdftocairo 150 ''y.pdf'' ''b'']\<rparr>)"
  by (simp add: mismatch_env_def example_env_def expand_pdfs_def pdftopng_def tmpdir_def
      glob_star_def glob_star_png_def slice_to_end_def suffix_def)

lemma mismatch_first_page:
  "for_pageno mismatch_env [''1''] []
     \<lparr>files = [''a-1.png'', ''a-2.png'', ''b-1.png'', ''b-2.png''],
       calls = [Pdftocairo 150 ''x.pdf'' ''a'', Pdftocairo 150 ''y.pdf'' ''b'']\<rparr>
   = (Inr [Finite 40],
      \<lparr>files = [''a-1.png'', ''a-2.png'', ''b-1.png'', ''b-2.png'', ''log-1.txt'', ''diff-1.png''],
       calls = [Pdftocairo 150 ''x.pdf'' ''a'', Pdftocairo 150 ''y.pdf'' ''b'',
                Imgdiff ''a-1.png'' ''b-1.png'' ''diff-1.png'' ''log-1.txt'',
                Compare ''a-1.png'' ''b-1.png'' ''diff-1.png'']\<rparr>)"
  by (simp add: mismatch_env_def example_env_def imgdiff_def pageapath_def pagebpath_def
      diffpath_def logpath_def PREF_def strip_def isspace_def example_float_def Let_def
      sublist_code)

lemma ten_pages_run:
  "pdftopng (example_env [''a-1.png'', ''a-2.png'', ''a-10.png''] [] []) ''x.pdf'' ''a'' 150 tmpdir
     = (Inr [''1'', ''10'', ''2''],
        \<lparr>files = [''a-1.png'', ''a-2.png'', ''a-10.png''], calls = [Pdftocairo 150 ''x.pdf'' ''a'']\<rparr>)"
  by (simp add: example_env_def pdftopng_def tmpdir_def
      glob_star_def glob_star_png_def slice_to_end_def suffix_def)

lemma underscore_run:
  "pdftopng (example_env [''a-1.png'', ''a_2.png''] [] []) ''x.pdf'' ''a'' 150 tmpdir
     = (Inr [''1'', ''2''],
        \<lparr>files = [''a-1.png'', ''a_2.png''], calls = [Pdftocairo 150 ''x.pdf'' ''a'']\<rparr>)"
  by (simp add: example_env_def pdftopng_def tmpdir_def
      glob_star_def glob_star_png_def slice_to_end_def suffix_def)

section \<open>The rasterizer invoker\<close>

text \<open>
  C6. For a basename that is literal in a glob pattern: when the destination directory
  holds a file whose name starts with the basename, \<^verbatim>\<open>pdftopng\<close> raises "destdir not
  clean" and leaves the directory and the list of calls as they were, so the rasterizer
  has not run; when no name starts with the basename, that error is not raised and the
  rasterizer is the next call.
\<close>

theorem pdftopng_dirty_destination:
  assumes "glob_literal basename"
  shows "((\<exists>n\<in>set (files w). \<exists>rest. n = basename @ rest) \<longrightarrow>
            pdftopng e sourcepath basename dpi w = (Inl Destdir_not_clean, w))
       \<and> (\<not> (\<exists>n\<in>set (files w). \<exists>rest. n = basename @ rest) \<longrightarrow>
            fst (pdftopng e sourcepath basename dpi w) \<noteq> Inl Destdir_not_clean
          \<and> calls (snd (pdftopng e sourcepath basename dpi w))
              = calls w @ [Pdftocairo dpi sourcepath basename])"
proof -
  have "(glob_star basename (files w) = []) = (\<not> (\<exists>n\<in>set (files w). \<exists>rest. n = basename @ rest))"
    by (auto simp: glob_star_def filter_empty_conv prefix_def)
  then have "([] \<noteq> glob_star basename (files w)) = (\<exists>n\<in>set (files w). \<exists>rest. n = basename @ rest)"
    by (metis (full_types))
  then show ?thesis
    by (auto simp: pdftopng_def Let_def split: prod.splits)
qed

theorem pdftopng_dirty_destination_witness:
  "pdftopng (example_env [''a-1.png''] [] []) ''x.pdf'' ''a'' 150
      \<lparr>files = [''b-1.png'', ''a-7.png''], calls = []\<rparr>
     = (Inl Destdir_not_clean, \<lparr>files = [''b-1.png'', ''a-7.png''], calls = []\<rparr>)
   \<and> fst (pdftopng (example_env [''a-1.png''] [] []) ''x.pdf'' ''a'' 150
      \<lparr>files = [''b-1.png''], calls = []\<rparr>) \<noteq> Inl Destdir_not_clean"
proof -
  have g: "glob_literal ''a''" by (simp add: glob_literal_def)
  have d: "\<exists>n\<in>set (files \<lparr>files = [''b-1.png'', ''a-7.png''], calls = []\<rparr>). \<exists>rest. n = ''a'' @ rest"
    by simp
  have c: "\<not> (\<exists>n\<in>set (files \<lparr>files = [''b-1.png''], calls = []\<rparr>). \<exists>rest. n = ''a'' @ rest)"
    by simp
  from pdftopng_dirty_destination [OF g, of "\<lparr>files = [''b-1.png'', ''a-7.png''], calls = []\<rparr>"] d
    pdftopng_dirty_destination [OF g, of "\<lparr>files = [''b-1.png''], calls = []\<rparr>"] c
  show ?thesis by blast
qed

text \<open>
  C7. For a basename that is literal in a glob pattern, a successful \<^verbatim>\<open>pdftopng\<close>
  returns one page id per file name of the form basename, anything, \<^verbatim>\<open>.png\<close> that the
  directory holds after the rasterizer ran, in the order of the names sorted as strings;
  the id of a name is what follows the basename without its first character and without
  \<^verbatim>\<open>.png\<close>. The order is that of strings, not of numbers: with pages 1, 2 and 10
  the ids come back as 1, 10, 2.
\<close>

theorem pdftopng_page_ids:
  assumes "glob_literal basename"
    and "pdftopng e sourcepath basename dpi w = (Inr ids, w')"
  shows "sorted (sort (filter (\<lambda>n. \<exists>mid. n = basename @ mid @ ''.png'') (files w')))
       \<and> length ids = length (sort (filter (\<lambda>n. \<exists>mid. n = basename @ mid @ ''.png'') (files w')))
       \<and> (\<forall>k<length ids. \<forall>mid.
            sort (filter (\<lambda>n. \<exists>mid. n = basename @ mid @ ''.png'') (files w')) ! k
              = basename @ mid @ ''.png''
            \<longrightarrow> ids ! k = drop 1 mid)"
proof -
  let ?numbers = "sort (filter (\<lambda>n. \<exists>mid. n = basename @ mid @ ''.png'') (files w'))"
  have g: "glob_star_png basename fs = filter (\<lambda>n. \<exists>mid. n = basename @ mid @ ''.png'') fs" for fs
    by (simp add: glob_star_png_def glob_star_png_iff)
  from assms(2) have ids: "ids = map (slice_to_end (length basename + 1) 4) ?numbers"
    by (auto simp: pdftopng_def Let_def g split: prod.splits if_splits)
  have "ids ! k = drop 1 mid" if "k < length ids" "?numbers ! k = basename @ mid @ ''.png''" for k mid
  proof -
    from that(1) have "k < length ?numbers" by (simp add: ids)
    then have "ids ! k = slice_to_end (length basename + 1) 4 (?numbers ! k)"
      by (simp add: ids)
    with that(2) show ?thesis by (simp add: page_id_of_name)
  qed
  moreover have "length ids = length ?numbers" by (simp add: ids)
  ultimately show ?thesis by simp
qed

theorem pdftopng_page_ids_witness:
  "fst (pdftopng (example_env [''a-1.png'', ''a-2.png'', ''a-10.png''] [] []) ''x.pdf'' ''a'' 150 tmpdir)
     = Inr [''1'', ''10'', ''2'']
   \<and> length [''1'', ''10'', ''2'']
     = length (sort (filter (\<lambda>n. \<exists>mid. n = ''a'' @ mid @ ''.png'') [''a-1.png'', ''a-2.png'', ''a-10.png'']))"
proof -
  have g: "glob_literal ''a''" by (simp add: glob_literal_def)
  from pdftopng_page_ids [OF g ten_pages_run] ten_pages_run
  show ?thesis by simp
qed

text \<open>
  C10. For prefix \<^verbatim>\<open>a\<close> (paths built by \<open>pageapath\<close>) and prefix \<^verbatim>\<open>b\<close> (paths
  built by \<open>pagebpath\<close>): every generated name is the prefix, a middle part and
  \<^verbatim>\<open>.png\<close>; the page id is the middle part without its first character; and the path
  that \<^verbatim>\<open>pdfdiff\<close> rebuilds from the id is the generated name exactly when that first
  character exists and is \<^verbatim>\<open>-\<close>.
\<close>

theorem page_path_round_trip:
  assumes "pre = ''a'' \<and> path = pageapath \<or> pre = ''b'' \<and> path = pagebpath"
    and "pdftopng e sourcepath pre dpi w = (Inr ids, w')"
  shows "length ids = length (sort (glob_star_png pre (files w')))
       \<and> (\<forall>k<length ids. \<exists>mid.
            sort (glob_star_png pre (files w')) ! k = pre @ mid @ ''.png''
          \<and> ids ! k = drop 1 mid
          \<and> (path (ids ! k) = sort (glob_star_png pre (files w')) ! k \<longleftrightarrow> take 1 mid = ''-''))"
proof -
  let ?numbers = "sort (glob_star_png pre (files w'))"
  from assms(2) have ids: "ids = map (slice_to_end (length pre + 1) 4) ?numbers"
    by (auto simp: pdftopng_def Let_def split: prod.splits if_splits)
  have path: "path i = pre @ ''-'' @ i @ ''.png''" for i
    using assms(1) by (auto simp: pageapath_def pagebpath_def)
  have step: "\<exists>mid. ?numbers ! k = pre @ mid @ ''.png'' \<and> ids ! k = drop 1 mid
      \<and> (path (ids ! k) = ?numbers ! k \<longleftrightarrow> take 1 mid = ''-'')" if "k < length ids" for k
  proof -
    from that have k: "k < length ?numbers" by (simp add: ids)
    then have "?numbers ! k \<in> set ?numbers" by (rule nth_mem)
    then have "?numbers ! k \<in> set (glob_star_png pre (files w'))" by simp
    then obtain mid where mid: "?numbers ! k = pre @ mid @ ''.png''"
      by (auto simp: glob_star_png_def glob_star_png_iff)
    from k have "ids ! k = slice_to_end (length pre + 1) 4 (?numbers ! k)" by (simp add: ids)
    with mid have id: "ids ! k = drop 1 mid" by (simp add: page_id_of_name)
    have "(path (ids ! k) = ?numbers ! k) = (''-'' @ drop 1 mid = mid)"
      by (simp add: path id mid)
    also have "\<dots> = (take 1 mid = ''-'')"
      by (cases mid) auto
    finally show ?thesis using mid id by blast
  qed
  have "length ids = length ?numbers" by (simp add: ids)
  with step show ?thesis by blast
qed

theorem page_path_round_trip_witness:
  "fst (pdftopng (example_env [''a-1.png'', ''a_2.png''] [] []) ''x.pdf'' ''a'' 150 tmpdir) = Inr [''1'', ''2'']
   \<and> pageapath ''1'' = ''a-1.png'' \<and> pageapath ''2'' \<noteq> ''a_2.png''
   \<and> length [''1'', ''2''] = length (sort (glob_star_png ''a'' [''a-1.png'', ''a_2.png'']))"
proof -
  have h: "''a'' = ''a'' \<and> pageapath = pageapath \<or> ''a'' = ''b'' \<and> pageapath = pagebpath" by simp
  from page_path_round_trip [OF h underscore_run, THEN conjunct1] underscore_run
  show ?thesis by (simp add: pageapath_def)
qed

section \<open>The page comparator\<close>

text \<open>
  C3. When \<^verbatim>\<open>imgdiff\<close> reaches the parsing of the one line that starts with
  \<^verbatim>\<open>"    all: "\<close> (the assertions hold, the exit status is at most 1, no line reports
  differing dimensions), the text after the label, stripped, decides the result: the
  token \<^verbatim>\<open>0\<close> gives the infinite score and not the number zero, and any other token
  gives what \<^verbatim>\<open>float\<close> makes of it (its \<^verbatim>\<open>ValueError\<close> where it raises).
\<close>

theorem imgdiff_all_token:
  assumes "a \<in> set (files w)" "b \<in> set (files w)" "diff \<notin> set (files w)" "logf \<notin> set (files w)"
    and "run_compare e a b diff (files w @ [logf]) = (returncode, lines, fs)"
    and "returncode \<le> 1"
    and "\<forall>l\<in>set lines. \<not> sublist ''image widths or heights differ'' l"
    and "filter (prefix ''    all: '') lines = [''    all: '' @ rest]"
  shows "(strip rest = ''0'' \<longrightarrow>
            fst (imgdiff e a b diff logf w) = Inr PosInf
          \<and> fst (imgdiff e a b diff logf w) \<noteq> Inr (Finite 0))
       \<and> (strip rest \<noteq> ''0'' \<longrightarrow>
            fst (imgdiff e a b diff logf w) =
              (case float_of e (strip rest) of
                 Some x \<Rightarrow> Inr x
               | None \<Rightarrow> Inl (Float_ValueError (strip rest))))"
proof -
  have nomis: "\<not> list_ex (sublist ''image widths or heights differ'') lines"
    using assms(7) by (simp add: list_ex_iff)
  have al: "filter (prefix PREF) lines = [PREF @ rest]"
    using assms(8) by (simp add: PREF_def)
  have tok: "strip (drop (length PREF) (hd (filter (prefix PREF) lines))) = strip rest"
    by (simp add: al)
  have one: "length (filter (prefix PREF) lines) = 1" by (simp add: al)
  note A = imgdiff_after_run [OF assms(1-5)]
  show ?thesis
    unfolding A tok using assms(6) nomis one
    by (auto simp: INFINITY_def split: option.splits)
qed

theorem imgdiff_all_token_witness:
  "fst (imgdiff (example_env [] [] [(''a-1.png'', 0, [''    red: 0\<newline>'', ''    all: 0\<newline>''])])
          ''a-1.png'' ''b-1.png'' ''diff-1.png'' ''log-1.txt'' page1_world) = Inr PosInf
   \<and> fst (imgdiff (example_env [] [] [(''a-1.png'', 1, [''    red: 40\<newline>'', ''    all: 3.5\<newline>''])])
          ''a-1.png'' ''b-1.png'' ''diff-1.png'' ''log-1.txt'' page1_world) = Inr (Finite (7 / 2))"
proof -
  have f: "''a-1.png'' \<in> set (files page1_world)" "''b-1.png'' \<in> set (files page1_world)"
     "''diff-1.png'' \<notin> set (files page1_world)" "''log-1.txt'' \<notin> set (files page1_world)"
    by (simp_all add: page1_world_def)
  have r0: "run_compare (example_env [] [] [(''a-1.png'', 0, [''    red: 0\<newline>'', ''    all: 0\<newline>''])])
       ''a-1.png'' ''b-1.png'' ''diff-1.png'' (files page1_world @ [''log-1.txt''])
     = (0, [''    red: 0\<newline>'', ''    all: 0\<newline>''], files page1_world @ [''log-1.txt'', ''diff-1.png''])"
    by (simp add: example_env_def)
  have r1: "run_compare (example_env [] [] [(''a-1.png'', 1, [''    red: 40\<newline>'', ''    all: 3.5\<newline>''])])
       ''a-1.png'' ''b-1.png'' ''diff-1.png'' (files page1_world @ [''log-1.txt''])
     = (1, [''    red: 40\<newline>'', ''    all: 3.5\<newline>''], files page1_world @ [''log-1.txt'', ''diff-1.png''])"
    by (simp add: example_env_def)
  have n0: "\<forall>l\<in>set [''    red: 0\<newline>'', ''    all: 0\<newline>'']. \<not> sublist ''image widths or heights differ'' l"
    by code_simp
  have n1: "\<forall>l\<in>set [''    red: 40\<newline>'', ''    all: 3.5\<newline>'']. \<not> sublist ''image widths or heights differ'' l"
    by code_simp
  have a0: "filter (prefix ''    all: '') [''    red: 0\<newline>'', ''    all: 0\<newline>''] = [''    all: '' @ ''0\<newline>'']"
    by simp
  have a1: "filter (prefix ''    all: '') [''    red: 40\<newline>'', ''    all: 3.5\<newline>''] = [''    all: '' @ ''3.5\<newline>'']"
    by simp
  have s0: "strip ''0\<newline>'' = ''0''" by (simp add: strip_def isspace_def)
  have s1: "strip ''3.5\<newline>'' = ''3.5''" by (simp add: strip_def isspace_def)
  have fl: "float_of (example_env [] [] [(''a-1.png'', 1, [''    red: 40\<newline>'', ''    all: 3.5\<newline>''])]) ''3.5'' = Some (Finite (7 / 2))"
    by (simp add: example_env_def example_float_def)
  from imgdiff_all_token [OF f r0 _ n0 a0] imgdiff_all_token [OF f r1 _ n1 a1] s0 s1 fl
  show ?thesis by simp
qed

text \<open>
  C4. Once the four assertions of \<^verbatim>\<open>imgdiff\<close> hold and the comparison tool has run,
  the "compare crashed" error is raised exactly when the exit status is greater than 1,
  and it carries that status. With an exit status of at most 1, and so with exit status 1,
  the log is parsed and decides the result: the dimension-mismatch error when a line
  reports differing dimensions, an assertion failure unless exactly one line starts with
  \<^verbatim>\<open>"    all: "\<close>, and otherwise the score read from that line. In particular exit
  status 1 gives what the same report gives with exit status 0.
\<close>

theorem imgdiff_crash_iff:
  assumes "a \<in> set (files w)" "b \<in> set (files w)" "diff \<notin> set (files w)" "logf \<notin> set (files w)"
    and "run_compare e a b diff (files w @ [logf]) = (returncode, lines, fs)"
  shows "((\<exists>n. fst (imgdiff e a b diff logf w) = Inl (Compare_crashed n)) \<longleftrightarrow> returncode > 1)
       \<and> (returncode > 1 \<longrightarrow> fst (imgdiff e a b diff logf w) = Inl (Compare_crashed returncode))
       \<and> (returncode \<le> 1 \<longrightarrow>
            fst (imgdiff e a b diff logf w) =
              (if \<exists>l\<in>set lines. sublist ''image widths or heights differ'' l
                 then Inl Widths_or_heights_differ
               else if length (filter (prefix ''    all: '') lines) \<noteq> 1 then Inl AssertionError
               else
                 (let all_str = strip (drop (length ''    all: '')
                                   (hd (filter (prefix ''    all: '') lines)))
                  in if all_str = ''0'' then Inr PosInf
                     else
                       (case float_of e all_str of
                          None \<Rightarrow> Inl (Float_ValueError all_str)
                        | Some all_num \<Rightarrow> Inr all_num))))
       \<and> (returncode = 1 \<longrightarrow>
            fst (imgdiff e a b diff logf w) =
            fst (imgdiff (e\<lparr>run_compare := \<lambda>a b diff fs'. (0, lines, fs)\<rparr>) a b diff logf w))"
proof -
  let ?e0 = "e\<lparr>run_compare := \<lambda>a b diff fs'. (0, lines, fs)\<rparr>"
  have r0: "run_compare ?e0 a b diff (files w @ [logf]) = (0, lines, fs)" by simp
  note A = imgdiff_after_run [OF assms]
  note B = imgdiff_after_run [OF assms(1-4) r0]
  have crash: "((\<exists>n. fst (imgdiff e a b diff logf w) = Inl (Compare_crashed n)) \<longleftrightarrow> returncode > 1)
       \<and> (returncode > 1 \<longrightarrow> fst (imgdiff e a b diff logf w) = Inl (Compare_crashed returncode))"
    unfolding A by (auto split: option.splits)
  have parse: "returncode \<le> 1 \<longrightarrow>
            fst (imgdiff e a b diff logf w) =
              (if \<exists>l\<in>set lines. sublist ''image widths or heights differ'' l
                 then Inl Widths_or_heights_differ
               else if length (filter (prefix ''    all: '') lines) \<noteq> 1 then Inl AssertionError
               else
                 (let all_str = strip (drop (length ''    all: '')
                                   (hd (filter (prefix ''    all: '') lines)))
                  in if all_str = ''0'' then Inr PosInf
                     else
                       (case float_of e all_str of
                          None \<Rightarrow> Inl (Float_ValueError all_str)
                        | Some all_num \<Rightarrow> Inr all_num)))"
    unfolding A by (simp add: list_ex_iff PREF_def INFINITY_def Let_def split: option.splits)
  have same: "returncode = 1 \<longrightarrow>
            fst (imgdiff e a b diff logf w) = fst (imgdiff ?e0 a b diff logf w)"
    unfolding A B by simp
  from crash parse same show ?thesis by blast
qed

theorem imgdiff_crash_iff_witness:
  "fst (imgdiff (example_env [] [] [(''a-1.png'', 1, [''    all: 3.5\<newline>''])])
          ''a-1.png'' ''b-1.png'' ''diff-1.png'' ''log-1.txt'' page1_world) = Inr (Finite (7 / 2))
   \<and> fst (imgdiff (example_env [] [] [(''a-1.png'', 2, [''    all: 3.5\<newline>''])])
          ''a-1.png'' ''b-1.png'' ''diff-1.png'' ''log-1.txt'' page1_world) = Inl (Compare_crashed 2)"
proof -
  have f: "''a-1.png'' \<in> set (files page1_world)" "''b-1.png'' \<in> set (files page1_world)"
     "''diff-1.png'' \<notin> set (files page1_world)" "''log-1.txt'' \<notin> set (files page1_world)"
    by (simp_all add: page1_world_def)
  have r1: "run_compare (example_env [] [] [(''a-1.png'', 1, [''    all: 3.5\<newline>''])])
       ''a-1.png'' ''b-1.png'' ''diff-1.png'' (files page1_world @ [''log-1.txt''])
     = (1, [''    all: 3.5\<newline>''], files page1_world @ [''log-1.txt'', ''diff-1.png''])"
    by (simp add: example_env_def)
  have r2: "run_compare (example_env [] [] [(''a-1.png'', 2, [''    all: 3.5\<newline>''])])
       ''a-1.png'' ''b-1.png'' ''diff-1.png'' (files page1_world @ [''log-1.txt''])
     = (2, [''    all: 3.5\<newline>''], files page1_world @ [''log-1.txt'', ''diff-1.png''])"
    by (simp add: example_env_def)
  have nomis: "\<not> (\<exists>l\<in>set [''    all: 3.5\<newline>'']. sublist ''image widths or heights differ'' l)"
    by code_simp
  have tok: "strip (drop (length ''    all: '') ''    all: 3.5\<newline>'') = ''3.5''"
    by (simp add: strip_def isspace_def)
  have fl: "float_of (example_env [] [] [(''a-1.png'', 1, [''    all: 3.5\<newline>''])]) ''3.5''
      = Some (Finite (7 / 2))"
    by (simp add: example_env_def example_float_def)
  have A: "fst (imgdiff (example_env [] [] [(''a-1.png'', 1, [''    all: 3.5\<newline>''])])
          ''a-1.png'' ''b-1.png'' ''diff-1.png'' ''log-1.txt'' page1_world) = Inr (Finite (7 / 2))"
    using imgdiff_crash_iff [OF f r1, THEN conjunct2, THEN conjunct2, THEN conjunct1] nomis tok fl
    by (simp add: Let_def)
  have B: "fst (imgdiff (example_env [] [] [(''a-1.png'', 2, [''    all: 3.5\<newline>''])])
          ''a-1.png'' ''b-1.png'' ''diff-1.png'' ''log-1.txt'' page1_world) = Inl (Compare_crashed 2)"
    using imgdiff_crash_iff [OF f r2, THEN conjunct2, THEN conjunct1] by simp
  from A B show ?thesis by simp
qed

text \<open>
  C5, as stated, fails: a report with the line "image widths or heights differ" and exit
  status 2 raises "compare crashed", since the exit status is examined before the log is
  read.
\<close>

theorem imgdiff_mismatch_line_counterexample:
  "list_ex (sublist ''image widths or heights differ'') [''compare: image widths or heights differ\<newline>'']
   \<and> fst (imgdiff (example_env [] [] [(''a-1.png'', 2, [''compare: image widths or heights differ\<newline>''])])
          ''a-1.png'' ''b-1.png'' ''diff-1.png'' ''log-1.txt'' page1_world) = Inl (Compare_crashed 2)
   \<and> fst (imgdiff (example_env [] [] [(''a-1.png'', 2, [''compare: image widths or heights differ\<newline>''])])
          ''a-1.png'' ''b-1.png'' ''diff-1.png'' ''log-1.txt'' page1_world) \<noteq> Inl Widths_or_heights_differ"
  by (simp add: imgdiff_def example_env_def page1_world_def sublist_code)

text \<open>
  C5, amended. When the exit status is at most 1 and a line of the log contains
  "image widths or heights differ", \<^verbatim>\<open>imgdiff\<close> raises the dimension-mismatch error
  and returns no score; and when this happens for a page in \<^verbatim>\<open>pdfdiff\<close>, whatever
  pages were compared before it, \<^verbatim>\<open>pdfdiff\<close> raises that error instead of returning a
  verdict.
\<close>

theorem imgdiff_mismatch_aborts:
  assumes "a \<in> set (files w)" "b \<in> set (files w)" "diff \<notin> set (files w)" "logf \<notin> set (files w)"
    and "run_compare e a b diff (files w @ [logf]) = (returncode, lines, fs)"
    and "returncode \<le> 1"
    and "\<exists>l\<in>set lines. \<exists>before after. l = before @ ''image widths or heights differ'' @ after"
  shows "fst (imgdiff e a b diff logf w) = Inl Widths_or_heights_differ
       \<and> (\<forall>pageno earlier later significances src_a src_b threshold dpi num_threads w0.
            a = pageapath pageno \<and> b = pagebpath pageno
            \<and> diff = diffpath pageno \<and> logf = logpath pageno
            \<and> isfile e src_a \<and> isfile e src_b \<and> 0 < num_threads
            \<and> expand_pdfs e src_a src_b dpi tmpdir
                = (Inr (earlier @ pageno # later, earlier @ pageno # later), w0)
            \<and> for_pageno e earlier [] w0 = (Inr significances, w)
            \<longrightarrow> fst (pdfdiff e src_a src_b threshold dpi num_threads) = Inl Widths_or_heights_differ)"
proof -
  have mis: "list_ex (sublist ''image widths or heights differ'') lines"
    using assms(7) by (auto simp: list_ex_iff sublist_def)
  have A: "fst (imgdiff e a b diff logf w) = Inl Widths_or_heights_differ"
    using imgdiff_after_run [OF assms(1-5)] assms(6) mis by simp
  have B: "fst (pdfdiff e src_a src_b threshold dpi num_threads) = Inl Widths_or_heights_differ"
    if paths: "a = pageapath pageno" "b = pagebpath pageno" "diff = diffpath pageno" "logf = logpath pageno"
      and src: "isfile e src_a" "isfile e src_b" "0 < num_threads"
      and ex: "expand_pdfs e src_a src_b dpi tmpdir
                = (Inr (earlier @ pageno # later, earlier @ pageno # later), w0)"
      and before: "for_pageno e earlier [] w0 = (Inr significances, w)"
    for pageno earlier later significances src_a src_b threshold dpi num_threads w0
  proof -
    have "fst (for_pageno e (pageno # later) significances w) = Inl Widths_or_heights_differ"
      using A paths by (intro for_pageno_raises) simp
    then have "fst (for_pageno e (earlier @ pageno # later) [] w0) = Inl Widths_or_heights_differ"
      by (simp add: for_pageno_append before)
    then show ?thesis
      using pdfdiff_after_expand [OF src ex, of threshold]
      by (auto split: prod.splits sum.splits)
  qed
  from A B show ?thesis by blast
qed

theorem imgdiff_mismatch_aborts_witness:
  "fst (pdfdiff mismatch_env ''x.pdf'' ''y.pdf'' (Finite 3) 150 2) = Inl Widths_or_heights_differ"
proof -
  let ?w = "\<lparr>files = [''a-1.png'', ''a-2.png'', ''b-1.png'', ''b-2.png'', ''log-1.txt'', ''diff-1.png''],
       calls = [Pdftocairo 150 ''x.pdf'' ''a'', Pdftocairo 150 ''y.pdf'' ''b'',
                Imgdiff ''a-1.png'' ''b-1.png'' ''diff-1.png'' ''log-1.txt'',
                Compare ''a-1.png'' ''b-1.png'' ''diff-1.png'']\<rparr>"
  have f: "''a-2.png'' \<in> set (files ?w)" "''b-2.png'' \<in> set (files ?w)"
     "''diff-2.png'' \<notin> set (files ?w)" "''log-2.txt'' \<notin> set (files ?w)"
    by simp_all
  have r: "run_compare mismatch_env ''a-2.png'' ''b-2.png'' ''diff-2.png'' (files ?w @ [''log-2.txt''])
     = (1, [''compare: image widths or heights differ\<newline>''], files ?w @ [''log-2.txt'', ''diff-2.png''])"
    by (simp add: mismatch_env_def example_env_def)
  have s: "(1::int) \<le> 1" by simp
  have l: "\<exists>l\<in>set [''compare: image widths or heights differ\<newline>''].
      \<exists>before after. l = before @ ''image widths or heights differ'' @ after"
  proof -
    have "''compare: image widths or heights differ\<newline>''
        = ''compare: '' @ ''image widths or heights differ'' @ ''\<newline>''" by simp
    then show ?thesis by (metis list.set_intros(1))
  qed
  have p: "''a-2.png'' = pageapath ''2''" "''b-2.png'' = pagebpath ''2''"
    "''diff-2.png'' = diffpath ''2''" "''log-2.txt'' = logpath ''2''"
    by (simp_all add: pageapath_def pagebpath_def diffpath_def logpath_def)
  have i: "isfile mismatch_env ''x.pdf''" "isfile mismatch_env ''y.pdf''" "(0::int) < 2"
    by (simp_all add: mismatch_env_def example_env_def)
  from imgdiff_mismatch_aborts [OF f r s l, THEN conjunct2, rule_format,
      of "''2''" "''x.pdf''" "''y.pdf''" 2 150 "[''1'']" "[]" _ "[Finite 40]" "Finite 3"]
    p i mismatch_expand mismatch_first_page
  show ?thesis by blast
qed

section \<open>The pipeline controller\<close>

text \<open>
  C2, as stated, fails: page-id lists that differ but have the same length make
  \<^verbatim>\<open>pdfdiff\<close> fail its assertion instead of returning False.
\<close>

theorem pdfdiff_unequal_ids_counterexample:
  "fst (expand_pdfs (example_env [''a-1.png''] [''b-2.png''] []) ''x.pdf'' ''y.pdf'' 150 tmpdir)
     = Inr ([''1''], [''2''])
   \<and> fst (pdfdiff (example_env [''a-1.png''] [''b-2.png''] []) ''x.pdf'' ''y.pdf'' (Finite 40) 150 2)
     = Inl AssertionError"
  by (simp add: pdfdiff_def example_env_def expand_pdfs_def pdftopng_def tmpdir_def
      glob_star_def glob_star_png_def slice_to_end_def suffix_def)

text \<open>
  C2, amended. When the two page-id lists differ in length, \<^verbatim>\<open>pdfdiff\<close> returns False
  whatever the threshold, in the workspace the rasterization left, and the calls of the
  run contain no entry into \<^verbatim>\<open>imgdiff\<close> and no run of the comparison tool.
\<close>

theorem pdfdiff_page_count_mismatch:
  assumes "isfile e a" "isfile e b" "0 < num_threads"
    and "expand_pdfs e a b dpi tmpdir = (Inr (a_i, b_i), w)"
    and "length a_i \<noteq> length b_i"
  shows "pdfdiff e a b threshold dpi num_threads = (Inr False, w)
       \<and> (\<forall>x y d l. Imgdiff x y d l \<notin> set (calls (snd (pdfdiff e a b threshold dpi num_threads))))
       \<and> (\<forall>x y d. Compare x y d \<notin> set (calls (snd (pdfdiff e a b threshold dpi num_threads))))"
proof -
  from assms(5) have ne: "a_i \<noteq> b_i" by auto
  have res: "pdfdiff e a b threshold dpi num_threads = (Inr False, w)"
    using pdfdiff_after_expand [OF assms(1-4)] ne assms(5) by simp
  have "set (calls w) \<subseteq> {Pdftocairo dpi a ''a'', Pdftocairo dpi b ''b''}"
    using assms(4) by (rule expand_pdfs_tmpdir_calls)
  then have "(\<forall>x y d l. Imgdiff x y d l \<notin> set (calls w)) \<and> (\<forall>x y d. Compare x y d \<notin> set (calls w))"
    by auto
  with res show ?thesis by simp
qed

theorem pdfdiff_page_count_mismatch_witness:
  "pdfdiff (example_env [''a-1.png'', ''a-2.png''] [''b-1.png'', ''b-2.png'', ''b-3.png''] [])
      ''x.pdf'' ''y.pdf'' (Finite 40) 150 2 =
     (Inr False,
      \<lparr>files = [''a-1.png'', ''a-2.png'', ''b-1.png'', ''b-2.png'', ''b-3.png''],
       calls = [Pdftocairo 150 ''x.pdf'' ''a'', Pdftocairo 150 ''y.pdf'' ''b'']\<rparr>)"
proof -
  let ?e = "example_env [''a-1.png'', ''a-2.png''] [''b-1.png'', ''b-2.png'', ''b-3.png''] []"
  have f: "isfile ?e ''x.pdf''" "isfile ?e ''y.pdf''"
    by (simp_all add: example_env_def)
  have n: "(0::int) < 2" by simp
  have l: "length [''1'', ''2''] \<noteq> length [''1'', ''2'', ''3'']" by simp
  from pdfdiff_page_count_mismatch [OF f n two_three_expand l, of "Finite 40"]
  show ?thesis by simp
qed

text \<open>
  C8. When the two page-id lists differ but have the same length, \<^verbatim>\<open>pdfdiff\<close> stops
  with an assertion failure: no verdict, and none of the other errors.
\<close>

theorem pdfdiff_mislabelled_pages:
  assumes "isfile e a" "isfile e b" "0 < num_threads"
    and "expand_pdfs e a b dpi tmpdir = (Inr (a_i, b_i), w)"
    and "a_i \<noteq> b_i" and "length a_i = length b_i"
  shows "pdfdiff e a b threshold dpi num_threads = (Inl AssertionError, w)"
  using pdfdiff_after_expand [OF assms(1-4)] assms(5,6) by simp

theorem pdfdiff_mislabelled_pages_witness:
  "fst (pdfdiff (example_env [''a-1.png'', ''a-2.png''] [''b-1.png'', ''b-3.png''] [])
      ''x.pdf'' ''y.pdf'' (Finite 40) 150 2) = Inl AssertionError"
proof -
  let ?e = "example_env [''a-1.png'', ''a-2.png''] [''b-1.png'', ''b-3.png''] []"
  have f: "isfile ?e ''x.pdf''" "isfile ?e ''y.pdf''"
    by (simp_all add: example_env_def)
  have n: "(0::int) < 2" by simp
  have l: "[''1'', ''2''] \<noteq> [''1'', ''3'']" "length [''1'', ''2''] = length [''1'', ''3'']" by simp_all
  from pdfdiff_mislabelled_pages [OF f n mislabelled_expand l, of "Finite 40"]
  show ?thesis by simp
qed

text \<open>
  C9. The minimum of no scores is the infinite score. When both documents have no page,
  \<^verbatim>\<open>pdfdiff\<close> stops with an assertion failure and gives no verdict. In a run that
  passes this assertion and compares every page, the list of scores is not empty, so the
  minimum is one of the scores and the default is not what the verdict is computed from.
\<close>

theorem pdfdiff_no_pages:
  assumes "isfile e a" "isfile e b" "0 < num_threads"
    and "expand_pdfs e a b dpi tmpdir = (Inr (a_i, b_i), w)"
  shows "py_min [] INFINITY = PosInf
       \<and> (a_i = [] \<and> b_i = [] \<longrightarrow>
            pdfdiff e a b threshold dpi num_threads = (Inl AssertionError, w))
       \<and> (\<forall>significances w'.
            a_i = b_i \<and> a_i \<noteq> [] \<and> for_pageno e a_i [] w = (Inr significances, w') \<longrightarrow>
              significances \<noteq> []
            \<and> py_min significances INFINITY \<in> set significances
            \<and> pdfdiff e a b threshold dpi num_threads
                = (Inr (\<not> py_le (py_min significances INFINITY) threshold), w'))"
proof (intro conjI allI impI)
  show "py_min [] INFINITY = PosInf" by (simp add: py_min_def INFINITY_def)
next
  assume "a_i = [] \<and> b_i = []"
  then show "pdfdiff e a b threshold dpi num_threads = (Inl AssertionError, w)"
    using pdfdiff_after_expand [OF assms] by simp
next
  fix significances w'
  assume h: "a_i = b_i \<and> a_i \<noteq> [] \<and> for_pageno e a_i [] w = (Inr significances, w')"
  then have eq: "a_i = b_i" and ne: "a_i \<noteq> []"
    and loop: "for_pageno e a_i [] w = (Inr significances, w')"
    by blast+
  from for_pageno_length [OF loop] have "length significances = length a_i" by simp
  with ne show "significances \<noteq> []" by auto
  then show "py_min significances INFINITY \<in> set significances"
    using min_loop_mem [of "hd significances" "tl significances"]
    by (cases significances) (auto simp: py_min_def)
  show "pdfdiff e a b threshold dpi num_threads
                = (Inr (\<not> py_le (py_min significances INFINITY) threshold), w')"
    using pdfdiff_after_expand [OF assms] eq ne loop by simp
qed

theorem pdfdiff_no_pages_witness:
  "fst (pdfdiff (example_env [] [] []) ''x.pdf'' ''y.pdf'' (Finite 40) 150 2) = Inl AssertionError
   \<and> fst (pdfdiff two_page_env ''x.pdf'' ''y.pdf'' (Finite 3) 150 2) = Inr True"
proof -
  let ?e = "example_env [] [] []"
  have f: "isfile ?e ''x.pdf''" "isfile ?e ''y.pdf''"
    by (simp_all add: example_env_def)
  have n: "(0::int) < 2" by simp
  have A: "fst (pdfdiff ?e ''x.pdf'' ''y.pdf'' (Finite 40) 150 2) = Inl AssertionError"
    using pdfdiff_no_pages [OF f n no_pages_expand, of "Finite 40"] by simp
  let ?w = "\<lparr>files = [''a-1.png'', ''a-2.png'', ''b-1.png'', ''b-2.png''],
       calls = [Pdftocairo 150 ''x.pdf'' ''a'', Pdftocairo 150 ''y.pdf'' ''b'']\<rparr>"
  have g: "isfile two_page_env ''x.pdf''" "isfile two_page_env ''y.pdf''"
    by (simp_all add: two_page_env_def example_env_def)
  have loop: "for_pageno two_page_env [''1'', ''2''] [] ?w
      = (Inr [Finite 40, Finite (7 / 2)], snd (for_pageno two_page_env [''1'', ''2''] [] ?w))"
    using two_page_loop by (simp add: prod_eq_iff)
  have B: "fst (pdfdiff two_page_env ''x.pdf'' ''y.pdf'' (Finite 3) 150 2) = Inr True"
    using pdfdiff_no_pages [OF g n two_page_expand, of "Finite 3"] loop
    by (simp add: py_min_def)
  from A B show ?thesis by simp
qed

text \<open>
  C1. When both documents give the same non-empty page-id list and every page is compared,
  the collected scores have a least element, and the verdict of \<^verbatim>\<open>pdfdiff\<close> is True
  exactly when the threshold is strictly below it; a least score equal to the threshold
  gives False. Scores and threshold are numbers or infinities here, not NaN.
\<close>

theorem pdfdiff_threshold:
  assumes "isfile e a" "isfile e b" "0 < num_threads"
    and "expand_pdfs e a b dpi tmpdir = (Inr (a_i, a_i), w)"
    and "a_i \<noteq> []"
    and "for_pageno e a_i [] w = (Inr significances, w')"
    and "NaN \<notin> set significances" "threshold \<noteq> NaN"
  shows "(\<exists>m\<in>set significances. \<forall>s\<in>set significances. py_le m s)
       \<and> (\<forall>m\<in>set significances. (\<forall>s\<in>set significances. py_le m s) \<longrightarrow>
            pdfdiff e a b threshold dpi num_threads = (Inr (py_lt threshold m), w')
          \<and> (m = threshold \<longrightarrow> fst (pdfdiff e a b threshold dpi num_threads) = Inr False))"
proof -
  let ?min = "py_min significances INFINITY"
  have len: "length significances = length a_i"
    using for_pageno_length [OF assms(6)] by simp
  with assms(5) have ne: "significances \<noteq> []" by auto
  from py_min_is_minimum [OF ne assms(7)]
  have mem: "?min \<in> set significances" and low: "\<forall>s\<in>set significances. py_le ?min s"
    by auto
  have res: "pdfdiff e a b threshold dpi num_threads = (Inr (\<not> py_le ?min threshold), w')"
    using pdfdiff_after_expand [OF assms(1-4)] assms(5,6) by simp
  have nn: "?min \<noteq> NaN" using mem assms(7) by auto
  have gt: "(\<not> py_le ?min threshold) = py_lt threshold ?min"
    using py_lt_conv_le [OF assms(8) nn] by simp
  have uniq: "m = ?min" if "m \<in> set significances" "\<forall>s\<in>set significances. py_le m s" for m
    using that mem low by (auto intro: py_le_antisym)
  have irr: "\<not> py_lt threshold threshold" by (cases threshold) auto
  show ?thesis
  proof (intro conjI ballI impI)
    show "\<exists>m\<in>set significances. \<forall>s\<in>set significances. py_le m s"
      using mem low by blast
  next
    fix m assume "m \<in> set significances" "\<forall>s\<in>set significances. py_le m s"
    then have "m = ?min" by (rule uniq)
    then show "pdfdiff e a b threshold dpi num_threads = (Inr (py_lt threshold m), w')"
      using res gt by simp
  next
    fix m assume "m \<in> set significances" "\<forall>s\<in>set significances. py_le m s" "m = threshold"
    then have "threshold = ?min" using uniq by simp
    then show "fst (pdfdiff e a b threshold dpi num_threads) = Inr False"
      using res gt irr by simp
  qed
qed

theorem pdfdiff_threshold_witness:
  "fst (pdfdiff two_page_env ''x.pdf'' ''y.pdf'' (Finite (7 / 2)) 150 2) = Inr False
   \<and> fst (pdfdiff two_page_env ''x.pdf'' ''y.pdf'' (Finite 3) 150 2) = Inr True"
proof -
  let ?w = "\<lparr>files = [''a-1.png'', ''a-2.png'', ''b-1.png'', ''b-2.png''],
       calls = [Pdftocairo 150 ''x.pdf'' ''a'', Pdftocairo 150 ''y.pdf'' ''b'']\<rparr>"
  let ?sigs = "[Finite 40, Finite (7 / 2)]"
  have f: "isfile two_page_env ''x.pdf''" "isfile two_page_env ''y.pdf''"
    by (simp_all add: two_page_env_def example_env_def)
  have loop: "for_pageno two_page_env [''1'', ''2''] [] ?w
      = (Inr ?sigs, snd (for_pageno two_page_env [''1'', ''2''] [] ?w))"
    using two_page_loop by (simp add: prod_eq_iff)
  have m: "Finite (7 / 2) \<in> set ?sigs" "\<forall>s\<in>set ?sigs. py_le (Finite (7 / 2)) s"
    by simp_all
  have nn: "NaN \<notin> set ?sigs" by simp
  have A: "fst (pdfdiff two_page_env ''x.pdf'' ''y.pdf'' (Finite (7 / 2)) 150 2) = Inr False"
    using pdfdiff_threshold [OF f _ two_page_expand _ loop nn, of 2 "Finite (7 / 2)"] m
    by simp
  have B: "fst (pdfdiff two_page_env ''x.pdf'' ''y.pdf'' (Finite 3) 150 2) = Inr True"
    using pdfdiff_threshold [OF f _ two_page_expand _ loop nn, of 2 "Finite 3"] m
    by simp
  from A B show ?thesis by simp
qed

end
